theory Spec2Isabelle
  imports Complex_Main
begin

section \<open>Data model\<close>

text \<open>
  The job-detail page (\<^verbatim>\<open>views/jobs/detail.tsx\<close>) and the DAG component
  (\<^verbatim>\<open>components/directed-acyclic-graph/index.tsx\<close>) work on a decoded job snapshot.
  A field that may be \<^verbatim>\<open>undefined\<close> is an \<open>option\<close>; a JavaScript object used as a
  dictionary is the list of its entries in \<^verbatim>\<open>Object.keys\<close> order; a thrown
  \<^verbatim>\<open>TypeError\<close> is the left summand of the result.
\<close>

datatype error = TypeError

text \<open>
  Modelled from the spec: the type declarations of \<^verbatim>\<open>@/service/job/types\<close>
  (\<^verbatim>\<open>Vertex\<close>, \<^verbatim>\<open>Job\<close>, \<^verbatim>\<open>JobStatus\<close>) are not part of the sources. The records below
  hold the fields that the two components read. A vertex has an integer identifier, a
  display name, a type and its table paths.
\<close>

record Vertex =
  vertexId :: int
  vertexName :: string
  vtype :: string
  tablePaths :: "string list"

text \<open>
  Modelled from the spec: an edge of \<^verbatim>\<open>pipelineEdges\<close> is a pair of string-encoded
  vertex identifiers.
\<close>

record Edge =
  inputVertexId :: string
  targetVertexId :: string

text \<open>
  A JavaScript number as the metrics table uses it: an integer value, or \<^verbatim>\<open>NaN\<close>
  (the result of \<^verbatim>\<open>Number(undefined)\<close>). Addition is \<^verbatim>\<open>+\<close> on numbers, with
  \<^verbatim>\<open>NaN\<close> absorbing. Integer values stand for themselves (exact below $2^{53}$).
\<close>

datatype number = Num int | NaN

fun plus_number :: "number \<Rightarrow> number \<Rightarrow> number" where
  "plus_number (Num a) (Num b) = Num (a + b)"
| "plus_number _ _ = NaN"

datatype source_key =
  TableSourceReceivedBytes | TableSourceReceivedCount
  | TableSourceReceivedQPS | TableSourceReceivedBytesPerSeconds

datatype sink_key =
  TableSinkWriteBytes | TableSinkWriteCount
  | TableSinkWriteQPS | TableSinkWriteBytesPerSeconds

datatype metric_key = Source source_key | Sink sink_key

type_synonym pipeline_edges = "(string \<times> Edge list) list"

type_synonym metrics_map = "metric_key \<rightharpoonup> (string \<rightharpoonup> number)"

text \<open>
  Modelled from the spec: the DAG snapshot of a job, with its vertex list
  \<^verbatim>\<open>vertexInfoMap\<close> and the mapping \<^verbatim>\<open>pipelineEdges\<close> from pipeline key to edge list.
\<close>

record JobDag =
  vertexInfoMap :: "Vertex list option"
  pipelineEdges :: "pipeline_edges option"

text \<open>
  Modelled from the spec: the job aggregate. \<^verbatim>\<open>reactive({} as Job)\<close> is the job with
  every field absent.
\<close>

record Job =
  jobDag :: "JobDag option"
  jobStatus :: "string option"
  metrics :: "metrics_map option"

definition empty_job :: Job where
  "empty_job = \<lparr>jobDag = None, jobStatus = None, metrics = None\<rparr>"

section \<open>String conversion of vertex identifiers\<close>

text \<open>
  \<^verbatim>\<open>String(n)\<close> for an integer \<open>n\<close> (of magnitude below $10^{21}$, where JavaScript
  prints all digits): the decimal digits, with a minus sign if negative.
\<close>

fun string_of_nat :: "nat \<Rightarrow> string" where
  "string_of_nat n =
     (if n < 10 then [''0123456789'' ! n]
      else string_of_nat (n div 10) @ [''0123456789'' ! (n mod 10)])"

declare string_of_nat.simps [simp del]

definition String :: "int \<Rightarrow> string" where
  "String i = (if i < 0 then CHR ''-'' # string_of_nat (nat (- i)) else string_of_nat (nat i))"

section \<open>Connectivity\<close>

text \<open>
  \<^verbatim>\<open>props?.job.jobDag.pipelineEdges || {}\<close>: only \<^verbatim>\<open>props\<close> is guarded by the optional
  chain, so reading \<^verbatim>\<open>pipelineEdges\<close> of an absent \<^verbatim>\<open>jobDag\<close> throws; an absent
  \<^verbatim>\<open>pipelineEdges\<close> becomes the empty object.
\<close>

definition edgeMap :: "Job \<Rightarrow> error + pipeline_edges" where
  "edgeMap job =
     (case jobDag job of
        None \<Rightarrow> Inl TypeError
      | Some dag \<Rightarrow> Inr (case pipelineEdges dag of None \<Rightarrow> [] | Some m \<Rightarrow> m))"

text \<open>The inner loop of \<^verbatim>\<open>isConnected\<close>: leaves with \<open>True\<close> at the first matching edge.\<close>

fun scan_edges :: "string \<Rightarrow> string \<Rightarrow> Edge list \<Rightarrow> bool" where
  "scan_edges s t [] = False"
| "scan_edges s t (e # es) =
     (if inputVertexId e = s \<and> targetVertexId e = t then True else scan_edges s t es)"

text \<open>The outer loop over \<^verbatim>\<open>Object.keys(edgeMap)\<close>.\<close>

fun scan_pipelines :: "string \<Rightarrow> string \<Rightarrow> pipeline_edges \<Rightarrow> bool" where
  "scan_pipelines s t [] = False"
| "scan_pipelines s t ((key, es) # m) =
     (if scan_edges s t es then True else scan_pipelines s t m)"

definition isConnected :: "Job \<Rightarrow> Vertex \<Rightarrow> Vertex \<Rightarrow> error + bool" where
  "isConnected job source target =
     (case edgeMap job of
        Inl e \<Rightarrow> Inl e
      | Inr m \<Rightarrow> Inr (scan_pipelines (String (vertexId source)) (String (vertexId target)) m))"

section \<open>Row layout\<close>

text \<open>
  A \<^verbatim>\<open>Point\<close> is a copy of a vertex made by \<^verbatim>\<open>{ ...item, next: [] }\<close>. The copies are
  distinct objects, told apart here by \<open>pid\<close>, the position in \<^verbatim>\<open>points\<close>. The mutable
  fields \<^verbatim>\<open>next\<close> and \<^verbatim>\<open>row\<close> live in a store keyed by \<open>pid\<close>. A row array is
  pushed onto \<^verbatim>\<open>matrix\<close> when it is created and never removed, so a reference to a row
  array is its index in \<^verbatim>\<open>matrix\<close>.
\<close>

record Point =
  pid :: nat
  vertex :: Vertex

record layout =
  matrix :: "Point list list"
  nexts :: "nat \<Rightarrow> nat list"
  rows :: "nat \<Rightarrow> nat option"

definition empty_layout :: layout where
  "empty_layout = \<lparr>matrix = [], nexts = (\<lambda>_. []), rows = (\<lambda>_. None)\<rparr>"

text \<open>\<^verbatim>\<open>findPrevious\<close>: the scan of one row, then of the rows in order.\<close>

fun find_in_row :: "Job \<Rightarrow> Point \<Rightarrow> Point list \<Rightarrow> error + Point option" where
  "find_in_row job item [] = Inr None"
| "find_in_row job item (point # row) =
     (case isConnected job (vertex point) (vertex item) of
        Inl e \<Rightarrow> Inl e
      | Inr True \<Rightarrow> Inr (Some point)
      | Inr False \<Rightarrow> find_in_row job item row)"

fun findPrevious :: "Job \<Rightarrow> Point list list \<Rightarrow> Point \<Rightarrow> error + Point option" where
  "findPrevious job [] item = Inr None"
| "findPrevious job (row # m) item =
     (case find_in_row job item row of
        Inl e \<Rightarrow> Inl e
      | Inr (Some point) \<Rightarrow> Inr (Some point)
      | Inr None \<Rightarrow> findPrevious job m item)"

text \<open>The body of \<^verbatim>\<open>points.forEach\<close>.\<close>

definition place :: "Job \<Rightarrow> layout \<Rightarrow> Point \<Rightarrow> error + layout" where
  "place job st point =
     (case findPrevious job (matrix st) point of
        Inl e \<Rightarrow> Inl e
      | Inr None \<Rightarrow>
          Inr (st\<lparr>rows := (rows st)(pid point := Some (length (matrix st))),
                  matrix := matrix st @ [[point]]\<rparr>)
      | Inr (Some prevous) \<Rightarrow>
          if nexts st (pid prevous) \<noteq> [] then
            Inr (st\<lparr>nexts := (nexts st)(pid prevous := nexts st (pid prevous) @ [pid point]),
                    rows := (rows st)(pid point := Some (length (matrix st))),
                    matrix := matrix st @ [[point]]\<rparr>)
          else
            (case rows st (pid prevous) of
               None \<Rightarrow> Inl TypeError
             | Some r \<Rightarrow>
                 Inr (st\<lparr>rows := (rows st)(pid point := Some r),
                         nexts := (nexts st)(pid prevous := [pid point]),
                         matrix := (matrix st)[r := matrix st ! r @ [point]]\<rparr>)))"

fun place_all :: "Job \<Rightarrow> layout \<Rightarrow> Point list \<Rightarrow> error + layout" where
  "place_all job st [] = Inr st"
| "place_all job st (point # ps) =
     (case place job st point of
        Inl e \<Rightarrow> Inl e
      | Inr st' \<Rightarrow> place_all job st' ps)"

text \<open>\<^verbatim>\<open>props?.job?.jobDag?.vertexInfoMap?.map(...) || []\<close>\<close>

definition points_of :: "Job \<Rightarrow> Point list" where
  "points_of job =
     (case jobDag job of
        None \<Rightarrow> []
      | Some dag \<Rightarrow>
          (case vertexInfoMap dag of
             None \<Rightarrow> []
           | Some vs \<Rightarrow> map (\<lambda>(i, v). \<lparr>pid = i, vertex = v\<rparr>) (enumerate 0 vs)))"

definition build_matrix :: "Job \<Rightarrow> error + Point list list" where
  "build_matrix job =
     (case place_all job empty_layout (points_of job) of
        Inl e \<Rightarrow> Inl e
      | Inr st \<Rightarrow> Inr (matrix st))"

definition grid_of :: "Point list list \<Rightarrow> Vertex list list" where
  "grid_of m = map (map vertex) m"

section \<open>Scene construction\<close>

text \<open>
  The descriptors pushed onto \<^verbatim>\<open>items\<close>: a node (\<^verbatim>\<open>shape: 'dag-node'\<close>) or an edge
  (\<^verbatim>\<open>shape: 'dag-edge'\<close>).
\<close>

record Port =
  port_id :: string
  group :: string

record NodeStatus =
  ns_id :: int
  status :: string
  label :: string

record NodeMeta =
  node_id :: string
  x_pos :: nat
  y_pos :: nat
  data :: NodeStatus
  ports :: "Port list"

record Terminal =
  cell :: string
  port :: string

record EdgeMeta =
  edge_id :: string
  edge_source :: Terminal
  edge_target :: Terminal
  zIndex :: nat

datatype Metadata = DagNode NodeMeta | DagEdge EdgeMeta

definition nodeWidth :: nat where
  "nodeWidth = 300"

definition offsetY :: nat where
  "offsetY = 140"

definition offsetX :: nat where
  "offsetX = nodeWidth + 240"

text \<open>\<^verbatim>\<open>props?.job?.jobStatus || 'default'\<close>: the empty string is falsy too.\<close>

definition status_of :: "Job \<Rightarrow> string" where
  "status_of job =
     (case jobStatus job of
        None \<Rightarrow> ''default''
      | Some s \<Rightarrow> if s = [] then ''default'' else s)"

text \<open>The body of \<^verbatim>\<open>row.forEach\<close>, for the item at column \<open>colNumber\<close> of \<open>row\<close>.\<close>

definition node_of :: "Job \<Rightarrow> nat \<Rightarrow> Point list \<Rightarrow> nat \<Rightarrow> Point \<Rightarrow> NodeMeta" where
  "node_of job rowNumber row colNumber item =
     (let ident = ''node-'' @ String (vertexId (vertex item)) in
      \<lparr>node_id = ident,
       x_pos = colNumber * offsetX,
       y_pos = rowNumber * offsetY,
       data = \<lparr>ns_id = vertexId (vertex item), status = status_of job,
               label = vertexName (vertex item)\<rparr>,
       ports =
         (if colNumber \<noteq> 0 then [\<lparr>port_id = ident @ ''-left'', group = ''left''\<rparr>] else []) @
         (if int colNumber \<noteq> int (length row) - 1
          then [\<lparr>port_id = ident @ ''-right'', group = ''right''\<rparr>] else [])\<rparr>)"

definition row_nodes :: "Job \<Rightarrow> nat \<Rightarrow> Point list \<Rightarrow> NodeMeta list" where
  "row_nodes job rowNumber row =
     map (\<lambda>(colNumber, item). node_of job rowNumber row colNumber item) (enumerate 0 row)"

definition node_items :: "Job \<Rightarrow> Point list list \<Rightarrow> NodeMeta list" where
  "node_items job m =
     concat (map (\<lambda>(rowNumber, row). row_nodes job rowNumber row) (enumerate 0 m))"

text \<open>The edge pushed for \<^verbatim>\<open>edge\<close> of the pipeline \<^verbatim>\<open>id\<close> when the counter is \<open>z\<close>.\<close>

definition edge_of :: "string \<Rightarrow> Edge \<Rightarrow> nat \<Rightarrow> EdgeMeta" where
  "edge_of key edge z =
     \<lparr>edge_id = ''edge-'' @ key,
      edge_source = \<lparr>cell = ''node-'' @ inputVertexId edge,
                     port = ''node-'' @ inputVertexId edge @ ''-right''\<rparr>,
      edge_target = \<lparr>cell = ''node-'' @ targetVertexId edge,
                     port = ''node-'' @ targetVertexId edge @ ''-left''\<rparr>,
      zIndex = z\<rparr>"

text \<open>The inner loop over the edges of one pipeline; \<^verbatim>\<open>zIndex++\<close> threads the counter.\<close>

fun pipeline_items :: "string \<Rightarrow> Edge list \<Rightarrow> nat \<Rightarrow> EdgeMeta list" where
  "pipeline_items key [] z = []"
| "pipeline_items key (edge # es) z = edge_of key edge z # pipeline_items key es (Suc z)"

text \<open>The outer loop over \<^verbatim>\<open>Object.keys(edgeMap)\<close>, from the counter value \<open>z\<close>.\<close>

fun edge_items :: "pipeline_edges \<Rightarrow> nat \<Rightarrow> EdgeMeta list" where
  "edge_items [] z = []"
| "edge_items ((key, es) # m) z = pipeline_items key es z @ edge_items m (z + length es)"

text \<open>
  \<^verbatim>\<open>init\<close> up to the hand-over to the graph library: the contents of \<^verbatim>\<open>items\<close>, or
  the error thrown on the way.
\<close>

definition init :: "Job \<Rightarrow> error + Metadata list" where
  "init job =
     (case build_matrix job of
        Inl e \<Rightarrow> Inl e
      | Inr m \<Rightarrow>
          (case edgeMap job of
             Inl e \<Rightarrow> Inl e
           | Inr em \<Rightarrow> Inr (map DagNode (node_items job m) @ map DagEdge (edge_items em 0))))"

fun nodes_of :: "Metadata list \<Rightarrow> NodeMeta list" where
  "nodes_of [] = []"
| "nodes_of (DagNode n # xs) = n # nodes_of xs"
| "nodes_of (DagEdge e # xs) = nodes_of xs"

fun edges_of :: "Metadata list \<Rightarrow> EdgeMeta list" where
  "edges_of [] = []"
| "edges_of (DagNode n # xs) = edges_of xs"
| "edges_of (DagEdge e # xs) = e # edges_of xs"

section \<open>Metrics table\<close>

text \<open>\<^verbatim>\<open>job.jobDag?.vertexInfoMap?.filter((v) => v.type !== 'transform') || []\<close>\<close>

definition tableData :: "Job \<Rightarrow> Vertex list" where
  "tableData job =
     (case jobDag job of
        None \<Rightarrow> []
      | Some dag \<Rightarrow>
          (case vertexInfoMap dag of
             None \<Rightarrow> []
           | Some vs \<Rightarrow> filter (\<lambda>v. vtype v \<noteq> ''transform'') vs))"

text \<open>
  \<^verbatim>\<open>Number(job.metrics?.[key][path])\<close>: an absent \<^verbatim>\<open>metrics\<close> ends the chain with
  \<^verbatim>\<open>undefined\<close>, whose number is \<^verbatim>\<open>NaN\<close>; a present \<^verbatim>\<open>metrics\<close> without \<^verbatim>\<open>key\<close>
  makes \<^verbatim>\<open>[path]\<close> read a property of \<^verbatim>\<open>undefined\<close>, which throws.
\<close>

definition metric_at :: "Job \<Rightarrow> metric_key \<Rightarrow> string \<Rightarrow> error + number" where
  "metric_at job key path =
     (case metrics job of
        None \<Rightarrow> Inr NaN
      | Some m \<Rightarrow>
          (case m key of
             None \<Rightarrow> Inl TypeError
           | Some t \<Rightarrow> (case t path of None \<Rightarrow> Inr NaN | Some v \<Rightarrow> Inr v)))"

text \<open>\<^verbatim>\<open>row.tablePaths.reduce((s, path) => s + Number(...), 0)\<close> from the accumulator \<open>s\<close>.\<close>

fun reduce_paths :: "Job \<Rightarrow> metric_key \<Rightarrow> number \<Rightarrow> string list \<Rightarrow> error + number" where
  "reduce_paths job key s [] = Inr s"
| "reduce_paths job key s (path # ps) =
     (case metric_at job key path of
        Inl e \<Rightarrow> Inl e
      | Inr v \<Rightarrow> reduce_paths job key (plus_number s v) ps)"

definition sourceCell :: "Job \<Rightarrow> Vertex \<Rightarrow> source_key \<Rightarrow> error + number" where
  "sourceCell job row key =
     (if vtype row = ''source'' then reduce_paths job (Source key) (Num 0) (tablePaths row)
      else Inr (Num 0))"

definition sinkCell :: "Job \<Rightarrow> Vertex \<Rightarrow> sink_key \<Rightarrow> error + number" where
  "sinkCell job row key =
     (if vtype row = ''sink'' then reduce_paths job (Sink key) (Num 0) (tablePaths row)
      else Inr (Num 0))"

section \<open>Status animation\<close>





section \<open>Notions used by the properties\<close>

text \<open>The edges of all pipelines, in the order in which the loops visit them.\<close>

definition all_edges :: "pipeline_edges \<Rightarrow> Edge list" where
  "all_edges m = concat (map snd m)"

text \<open>The two string-encoded ends of an edge.\<close>

definition ends :: "Edge \<Rightarrow> string \<times> string" where
  "ends e = (inputVertexId e, targetVertexId e)"

text \<open>The edge from the vertex \<open>s\<close> to the vertex \<open>t\<close>, as the pipeline lists encode it.\<close>

definition link :: "Vertex \<Rightarrow> Vertex \<Rightarrow> string \<times> string" where
  "link s t = (String (vertexId s), String (vertexId t))"

subsection \<open>Example data\<close>

definition vertex_A :: Vertex where
  "vertex_A = \<lparr>vertexId = 1, vertexName = ''A'', vtype = ''source'', tablePaths = [''a'', ''b'']\<rparr>"

definition vertex_B :: Vertex where
  "vertex_B = \<lparr>vertexId = 2, vertexName = ''B'', vtype = ''transform'', tablePaths = []\<rparr>"

definition vertex_C :: Vertex where
  "vertex_C = \<lparr>vertexId = 3, vertexName = ''C'', vtype = ''sink'', tablePaths = [''c'']\<rparr>"

definition edge_1_2 :: Edge where
  "edge_1_2 = \<lparr>inputVertexId = ''1'', targetVertexId = ''2''\<rparr>"

definition edge_2_3 :: Edge where
  "edge_2_3 = \<lparr>inputVertexId = ''2'', targetVertexId = ''3''\<rparr>"

definition edge_1_3 :: Edge where
  "edge_1_3 = \<lparr>inputVertexId = ''1'', targetVertexId = ''3''\<rparr>"

definition chain_dag :: JobDag where
  "chain_dag = \<lparr>vertexInfoMap = Some [vertex_A, vertex_B, vertex_C],
                 pipelineEdges = Some [(''1'', [edge_1_2, edge_2_3])]\<rparr>"

definition chain_job :: Job where
  "chain_job = \<lparr>jobDag = Some chain_dag, jobStatus = Some ''RUNNING'', metrics = None\<rparr>"

definition fan_dag :: JobDag where
  "fan_dag = \<lparr>vertexInfoMap = Some [vertex_A, vertex_B, vertex_C],
               pipelineEdges = Some [(''1'', [edge_1_2, edge_1_3])]\<rparr>"

definition fan_job :: Job where
  "fan_job = \<lparr>jobDag = Some fan_dag, jobStatus = Some ''RUNNING'', metrics = None\<rparr>"

text \<open>A DAG snapshot without \<^verbatim>\<open>pipelineEdges\<close>.\<close>

definition bare_dag :: JobDag where
  "bare_dag = \<lparr>vertexInfoMap = Some [vertex_A, vertex_B], pipelineEdges = None\<rparr>"

definition bare_job :: Job where
  "bare_job = \<lparr>jobDag = Some bare_dag, jobStatus = None, metrics = None\<rparr>"

text \<open>The layout of the fan-out after \<open>A\<close> and \<open>B\<close> have been placed.\<close>

definition fan_layout_2 :: layout where
  "fan_layout_2 =
     \<lparr>matrix = [[\<lparr>pid = 0, vertex = vertex_A\<rparr>, \<lparr>pid = 1, vertex = vertex_B\<rparr>]],
      nexts = (\<lambda>_. [])(0 := [1]),
      rows = (\<lambda>_. None)(0 := Some 0, 1 := Some 0)\<rparr>"

text \<open>The fan-out grid: \<open>A\<close>, \<open>B\<close> in the first row and \<open>C\<close> in a row of its own.\<close>

definition fan_grid :: "Point list list" where
  "fan_grid = [[\<lparr>pid = 0, vertex = vertex_A\<rparr>, \<lparr>pid = 1, vertex = vertex_B\<rparr>],
               [\<lparr>pid = 2, vertex = vertex_C\<rparr>]]"

text \<open>A DAG snapshot with an empty vertex list and one edge.\<close>

definition orphan_dag :: JobDag where
  "orphan_dag = \<lparr>vertexInfoMap = Some [], pipelineEdges = Some [(''1'', [edge_1_2])]\<rparr>"

definition orphan_job :: Job where
  "orphan_job = \<lparr>jobDag = Some orphan_dag, jobStatus = Some ''RUNNING'', metrics = None\<rparr>"

text \<open>A DAG snapshot without \<^verbatim>\<open>vertexInfoMap\<close> and with two pipelines.\<close>

definition listless_dag :: JobDag where
  "listless_dag = \<lparr>vertexInfoMap = None, pipelineEdges = Some [(''1'', [edge_1_2]), (''2'', [edge_2_3])]\<rparr>"

definition listless_job :: Job where
  "listless_job = \<lparr>jobDag = Some listless_dag, jobStatus = None, metrics = None\<rparr>"

text \<open>The chain with a metrics object that has no key at all.\<close>

definition keyless_job :: Job where
  "keyless_job = \<lparr>jobDag = Some chain_dag, jobStatus = Some ''RUNNING'', metrics = Some Map.empty\<rparr>"

text \<open>The chain with the metrics \<^verbatim>\<open>{TableSourceReceivedBytes: {a: 10, b: 20}}\<close>.\<close>

definition metrics_job :: Job where
  "metrics_job = \<lparr>jobDag = Some chain_dag, jobStatus = Some ''RUNNING'',
     metrics = Some [Source TableSourceReceivedBytes \<mapsto> [''a'' \<mapsto> Num 10, ''b'' \<mapsto> Num 20]]\<rparr>"





subsection \<open>Auxiliary notions\<close>

text \<open>\<^verbatim>\<open>pipelineEdges || {}\<close> for a DAG snapshot that is there.\<close>

definition edges_or_empty :: "JobDag \<Rightarrow> pipeline_edges" where
  "edges_or_empty dag = (case pipelineEdges dag of None \<Rightarrow> [] | Some m \<Rightarrow> m)"

text \<open>
  The layout invariant behind \<^verbatim>\<open>prevous.row!\<close>: every point of the matrix has its
  \<^verbatim>\<open>row\<close> set.
\<close>

definition rows_known :: "layout \<Rightarrow> bool" where
  "rows_known st = (\<forall>row \<in> set (matrix st). \<forall>p \<in> set row. rows st (pid p) \<noteq> None)"

section \<open>Decimal strings are injective\<close>

lemma digit_inj:
  assumes "a < 10" "b < 10" "''0123456789'' ! a = ''0123456789'' ! b"
  shows "a = b"
proof -
  have d: "distinct ''0123456789''" by simp
  have "a < length ''0123456789''" "b < length ''0123456789''" using assms by simp_all
  with d assms(3) show ?thesis by (simp only: nth_eq_iff_index_eq)
qed

lemma string_of_nat_digits: "set (string_of_nat n) \<subseteq> set ''0123456789''"
proof (induction n rule: string_of_nat.induct)
  case (1 n)
  show ?case
  proof (cases "n < 10")
    case True
    then have "''0123456789'' ! n \<in> set ''0123456789''" by (intro nth_mem) simp
    with True show ?thesis by (subst string_of_nat.simps) simp
  next
    case False
    have "n mod 10 < length ''0123456789''" by simp
    then have "''0123456789'' ! (n mod 10) \<in> set ''0123456789''" by (rule nth_mem)
    with False 1 show ?thesis by (subst string_of_nat.simps) simp
  qed
qed

lemma string_of_nat_nonempty: "string_of_nat n \<noteq> []"
  by (subst string_of_nat.simps) simp

lemma string_of_nat_inj: "string_of_nat n = string_of_nat k \<Longrightarrow> n = k"
proof (induction n arbitrary: k rule: string_of_nat.induct)
  case (1 n)
  show ?case
  proof (cases "n < 10")
    case n: True
    show ?thesis
    proof (cases "k < 10")
      case True
      with n 1(2) show ?thesis
        by (auto simp: string_of_nat.simps[of n] string_of_nat.simps[of k] intro: digit_inj)
    next
      case False
      with n 1(2) string_of_nat_nonempty[of "k div 10"] show ?thesis
        by (auto simp: string_of_nat.simps[of n] string_of_nat.simps[of k] Cons_eq_append_conv)
    qed
  next
    case n: False
    show ?thesis
    proof (cases "k < 10")
      case True
      with n 1(2) string_of_nat_nonempty[of "n div 10"] show ?thesis
        by (auto simp: string_of_nat.simps[of n] string_of_nat.simps[of k] append_eq_Cons_conv)
    next
      case False
      with n 1(2) have eq: "string_of_nat (n div 10) = string_of_nat (k div 10)"
        and dg: "''0123456789'' ! (n mod 10) = ''0123456789'' ! (k mod 10)"
        by (auto simp: string_of_nat.simps[of n] string_of_nat.simps[of k])
      from 1(1)[OF n eq] have "n div 10 = k div 10" .
      moreover from dg have "n mod 10 = k mod 10" by (intro digit_inj) simp_all
      ultimately show ?thesis by (metis div_mult_mod_eq)
    qed
  qed
qed

lemma String_inj: "String i = String j \<Longrightarrow> i = j"
proof -
  assume eq: "String i = String j"
  have nd: "CHR ''-'' \<notin> set (string_of_nat n)" for n
    using string_of_nat_digits[of n] by auto
  show ?thesis
  proof (cases "i < 0")
    case i: True
    show ?thesis
    proof (cases "j < 0")
      case True
      with i eq have "nat (- i) = nat (- j)"
        by (auto simp: String_def dest: string_of_nat_inj)
      with i True show ?thesis by simp
    next
      case False
      with i eq have "CHR ''-'' # string_of_nat (nat (- i)) = string_of_nat (nat j)"
        by (simp add: String_def)
      then have "CHR ''-'' \<in> set (string_of_nat (nat j))" by (metis list.set_intros(1))
      with nd show ?thesis by simp
    qed
  next
    case i: False
    show ?thesis
    proof (cases "j < 0")
      case True
      with i eq have "string_of_nat (nat i) = CHR ''-'' # string_of_nat (nat (- j))"
        by (simp add: String_def)
      then have "CHR ''-'' \<in> set (string_of_nat (nat i))" by (metis list.set_intros(1))
      with nd show ?thesis by simp
    next
      case False
      with i eq have "nat i = nat j"
        by (auto simp: String_def dest: string_of_nat_inj)
      with i False show ?thesis by simp
    qed
  qed
qed

lemma link_eq_iff: "link s t = link s' t' \<longleftrightarrow> vertexId s = vertexId s' \<and> vertexId t = vertexId t'"
  by (auto simp: link_def dest: String_inj)

section \<open>Connectivity\<close>

lemma scan_edges_iff:
  "scan_edges s t es \<longleftrightarrow> (\<exists>e \<in> set es. inputVertexId e = s \<and> targetVertexId e = t)"
  by (induction es) auto

lemma scan_pipelines_iff:
  "scan_pipelines s t m \<longleftrightarrow>
     (\<exists>e \<in> set (all_edges m). inputVertexId e = s \<and> targetVertexId e = t)"
  by (induction m) (auto simp: all_edges_def scan_edges_iff)

lemma isConnected_link:
  assumes "jobDag job = Some dag" "pipelineEdges dag = Some m"
  shows "isConnected job s t = Inr (link s t \<in> ends ` set (all_edges m))"
proof -
  have "link s t \<in> ends ` set (all_edges m) \<longleftrightarrow>
        (\<exists>e \<in> set (all_edges m).
           inputVertexId e = String (vertexId s) \<and> targetVertexId e = String (vertexId t))"
    unfolding link_def ends_def image_iff by (intro bex_cong refl) auto
  with assms show ?thesis
    by (simp add: isConnected_def edgeMap_def scan_pipelines_iff)
qed

lemma points_need_dag: "points_of job \<noteq> [] \<Longrightarrow> \<exists>dag. jobDag job = Some dag"
  by (cases "jobDag job") (simp_all add: points_of_def)

text \<open>
  C3. \<^verbatim>\<open>isConnected\<close> is a function of the job and the two vertices alone. When the job
  has its DAG snapshot, it returns \<open>True\<close> exactly when some edge of some pipeline has
  \<^verbatim>\<open>inputVertexId\<close> equal to the string form of the source's id and
  \<^verbatim>\<open>targetVertexId\<close> equal to the string form of the target's id; an absent
  \<^verbatim>\<open>pipelineEdges\<close> gives \<open>False\<close> for every pair; and a matching edge decides the
  answer whatever follows it in the scan.
\<close>

theorem isConnected_iff:
  "jobDag job = Some dag \<Longrightarrow>
   isConnected job s t =
     Inr (\<exists>e \<in> set (all_edges (case pipelineEdges dag of None \<Rightarrow> [] | Some m \<Rightarrow> m)).
            inputVertexId e = String (vertexId s) \<and> targetVertexId e = String (vertexId t)) \<and>
   (pipelineEdges dag = None \<longrightarrow> isConnected job s t = Inr False) \<and>
   (\<forall>m1 key es1 e es2 m2.
      pipelineEdges dag = Some (m1 @ (key, es1 @ e # es2) # m2) \<and>
      inputVertexId e = String (vertexId s) \<and> targetVertexId e = String (vertexId t)
      \<longrightarrow> isConnected job s t = Inr True)"
  by (auto simp: isConnected_def edgeMap_def scan_pipelines_iff all_edges_def)

theorem isConnected_iff_witness:
  "isConnected chain_job vertex_A vertex_B = Inr True \<and>
   isConnected chain_job vertex_A vertex_C = Inr False \<and>
   isConnected bare_job vertex_A vertex_B = Inr False"
  using isConnected_iff [of chain_job chain_dag vertex_A vertex_B]
    isConnected_iff [of chain_job chain_dag vertex_A vertex_C]
    isConnected_iff [of bare_job bare_dag vertex_A vertex_B]
  by (simp add: chain_job_def chain_dag_def bare_job_def bare_dag_def vertex_A_def vertex_B_def
      vertex_C_def edge_1_2_def edge_2_3_def all_edges_def String_def string_of_nat.simps)

section \<open>Row layout\<close>

lemma chain_matrix:
  assumes "jobDag job = Some dag"
    and "vertexInfoMap dag = Some [a, b, c]"
    and "isConnected job a b = Inr True"
    and "isConnected job a c = Inr False"
    and "isConnected job b c = Inr True"
  shows "build_matrix job =
    Inr [[\<lparr>pid = 0, vertex = a\<rparr>, \<lparr>pid = 1, vertex = b\<rparr>, \<lparr>pid = 2, vertex = c\<rparr>]]"
  using assms
  by (simp add: build_matrix_def points_of_def place_def empty_layout_def)

lemma fan_matrix:
  assumes "jobDag job = Some dag"
    and "vertexInfoMap dag = Some [a, b, c]"
    and "isConnected job a b = Inr True"
    and "isConnected job a c = Inr True"
  shows "build_matrix job =
    Inr [[\<lparr>pid = 0, vertex = a\<rparr>, \<lparr>pid = 1, vertex = b\<rparr>], [\<lparr>pid = 2, vertex = c\<rparr>]]"
  using assms
  by (simp add: build_matrix_def points_of_def place_def empty_layout_def)

lemma fan_matrix_general:
  assumes dag: "jobDag job = Some dag"
    and vs: "vertexInfoMap dag = Some [a, b, c]"
    and m: "pipelineEdges dag = Some m"
    and ends: "ends ` set (all_edges m) = {link a b, link a c}"
  shows "build_matrix job =
    Inr [[\<lparr>pid = 0, vertex = a\<rparr>, \<lparr>pid = 1, vertex = b\<rparr>], [\<lparr>pid = 2, vertex = c\<rparr>]]"
proof -
  have "isConnected job a b = Inr True" "isConnected job a c = Inr True"
    by (simp_all add: isConnected_link[OF dag m] ends)
  with dag vs show ?thesis by (rule fan_matrix)
qed

text \<open>
  C1. For three vertices \<open>a\<close>, \<open>b\<close>, \<open>c\<close> with distinct ids, given in this order, and
  pipelines whose edges are exactly \<open>a \<rightarrow> b\<close> and \<open>b \<rightarrow> c\<close>, the layout has exactly one
  row, holding \<open>a\<close>, \<open>b\<close>, \<open>c\<close> in this order.
\<close>

theorem chain_layout:
  assumes dag: "jobDag job = Some dag"
    and vs: "vertexInfoMap dag = Some [a, b, c]"
    and m: "pipelineEdges dag = Some m"
    and ids: "distinct [vertexId a, vertexId b, vertexId c]"
    and ends: "ends ` set (all_edges m) = {link a b, link b c}"
  shows "build_matrix job =
    Inr [[\<lparr>pid = 0, vertex = a\<rparr>, \<lparr>pid = 1, vertex = b\<rparr>, \<lparr>pid = 2, vertex = c\<rparr>]]"
proof -
  have ab: "isConnected job a b = Inr True"
    by (simp add: isConnected_link[OF dag m] ends)
  have bc: "isConnected job b c = Inr True"
    by (simp add: isConnected_link[OF dag m] ends)
  have ac: "isConnected job a c = Inr False"
    using ids by (simp add: isConnected_link[OF dag m] ends link_eq_iff)
  from dag vs ab ac bc show ?thesis by (rule chain_matrix)
qed

theorem chain_layout_witness:
  "distinct [vertexId vertex_A, vertexId vertex_B, vertexId vertex_C] \<and>
   build_matrix chain_job =
     Inr [[\<lparr>pid = 0, vertex = vertex_A\<rparr>, \<lparr>pid = 1, vertex = vertex_B\<rparr>,
           \<lparr>pid = 2, vertex = vertex_C\<rparr>]]"
  using chain_layout [of chain_job chain_dag vertex_A vertex_B vertex_C "[(''1'', [edge_1_2, edge_2_3])]"]
  by (simp add: chain_job_def chain_dag_def vertex_A_def vertex_B_def vertex_C_def
      edge_1_2_def edge_2_3_def all_edges_def ends_def link_def String_def string_of_nat.simps)

text \<open>
  C2. For three vertices \<open>a\<close>, \<open>b\<close>, \<open>c\<close> given in this order and pipelines whose edges
  are exactly \<open>a \<rightarrow> b\<close> and \<open>a \<rightarrow> c\<close>, the layout has exactly two rows: \<open>a\<close>, \<open>b\<close> and,
  apart, \<open>c\<close>. In any layout, a vertex whose predecessor already has a successor is put
  into a new last row of its own, and the existing rows stay as they are.
\<close>

theorem fan_out_layout:
  "(jobDag job = Some dag \<and> vertexInfoMap dag = Some [a, b, c] \<and> pipelineEdges dag = Some m \<and>
    ends ` set (all_edges m) = {link a b, link a c}
    \<longrightarrow> build_matrix job =
          Inr [[\<lparr>pid = 0, vertex = a\<rparr>, \<lparr>pid = 1, vertex = b\<rparr>], [\<lparr>pid = 2, vertex = c\<rparr>]]) \<and>
   (findPrevious job' (matrix st) point = Inr (Some prevous) \<and> nexts st (pid prevous) \<noteq> []
    \<longrightarrow> (\<exists>st'. place job' st point = Inr st' \<and> matrix st' = matrix st @ [[point]] \<and>
               rows st' (pid point) = Some (length (matrix st))))"
proof (intro conjI impI)
  assume "jobDag job = Some dag \<and> vertexInfoMap dag = Some [a, b, c] \<and>
    pipelineEdges dag = Some m \<and> ends ` set (all_edges m) = {link a b, link a c}"
  then show "build_matrix job =
    Inr [[\<lparr>pid = 0, vertex = a\<rparr>, \<lparr>pid = 1, vertex = b\<rparr>], [\<lparr>pid = 2, vertex = c\<rparr>]]"
    using fan_matrix_general [of job dag a b c m] by blast
next
  assume "findPrevious job' (matrix st) point = Inr (Some prevous) \<and>
    nexts st (pid prevous) \<noteq> []"
  then show "\<exists>st'. place job' st point = Inr st' \<and> matrix st' = matrix st @ [[point]] \<and>
    rows st' (pid point) = Some (length (matrix st))"
    by (simp add: place_def)
qed

theorem fan_out_layout_witness:
  "build_matrix fan_job =
     Inr [[\<lparr>pid = 0, vertex = vertex_A\<rparr>, \<lparr>pid = 1, vertex = vertex_B\<rparr>],
          [\<lparr>pid = 2, vertex = vertex_C\<rparr>]] \<and>
   findPrevious fan_job (matrix fan_layout_2) \<lparr>pid = 2, vertex = vertex_C\<rparr>
     = Inr (Some \<lparr>pid = 0, vertex = vertex_A\<rparr>) \<and>
   nexts fan_layout_2 0 = [1] \<and>
   (\<exists>st'. place fan_job fan_layout_2 \<lparr>pid = 2, vertex = vertex_C\<rparr> = Inr st' \<and>
      matrix st' = [[\<lparr>pid = 0, vertex = vertex_A\<rparr>, \<lparr>pid = 1, vertex = vertex_B\<rparr>],
                    [\<lparr>pid = 2, vertex = vertex_C\<rparr>]] \<and> rows st' 2 = Some 1)"
  using fan_out_layout [of fan_job fan_dag vertex_A vertex_B vertex_C "[(''1'', [edge_1_2, edge_1_3])]"
      fan_job fan_layout_2 "\<lparr>pid = 2, vertex = vertex_C\<rparr>" "\<lparr>pid = 0, vertex = vertex_A\<rparr>"]
  by (simp add: fan_job_def fan_dag_def fan_layout_2_def vertex_A_def vertex_B_def vertex_C_def
      edge_1_2_def edge_1_3_def all_edges_def ends_def link_def String_def string_of_nat.simps
      isConnected_def edgeMap_def)

section \<open>The layout never throws when the DAG snapshot is there\<close>

lemma edgeMap_dag: "jobDag job = Some dag \<Longrightarrow> edgeMap job = Inr (edges_or_empty dag)"
  by (simp add: edgeMap_def edges_or_empty_def)

lemma isConnected_dag:
  "jobDag job = Some dag \<Longrightarrow> \<exists>b. isConnected job s t = Inr b"
  by (simp add: isConnected_def edgeMap_dag)

lemma find_in_row_dag:
  assumes "jobDag job = Some dag"
  shows "find_in_row job item row = Inr None \<or>
         (\<exists>p \<in> set row. find_in_row job item row = Inr (Some p))"
proof (induction row)
  case Nil
  show ?case by simp
next
  case (Cons point row)
  from isConnected_dag[OF assms] obtain b
    where "isConnected job (vertex point) (vertex item) = Inr b" by blast
  with Cons show ?case by (cases b) auto
qed

lemma findPrevious_dag:
  assumes "jobDag job = Some dag"
  shows "findPrevious job m item = Inr None \<or>
         (\<exists>row \<in> set m. \<exists>p \<in> set row. findPrevious job m item = Inr (Some p))"
proof (induction m)
  case Nil
  show ?case by simp
next
  case (Cons row m)
  from find_in_row_dag[OF assms, of item row] Cons show ?case by auto
qed

lemma rows_known_new_row:
  assumes "rows_known st"
    and "matrix st' = matrix st @ [[point]]"
    and "rows st' = (rows st)(pid point := Some n)"
  shows "rows_known st'"
  using assms by (auto simp: rows_known_def)

lemma rows_known_push:
  assumes inv: "rows_known st"
    and m': "matrix st' = (matrix st)[r := matrix st ! r @ [point]]"
    and r': "rows st' = (rows st)(pid point := Some n)"
  shows "rows_known st'"
proof (cases "r < length (matrix st)")
  case False
  then have "(matrix st)[r := matrix st ! r @ [point]] = matrix st"
    by (intro list_update_beyond) simp
  with inv m' r' show ?thesis by (auto simp: rows_known_def)
next
  case True
  have "rows st (pid q) \<noteq> None \<or> pid q = pid point"
    if row': "row' \<in> set (matrix st')" and q: "q \<in> set row'"
    for row' q
  proof -
    from row' m' have "row' = matrix st ! r @ [point] \<or> row' \<in> set (matrix st)"
      using set_update_subset_insert[of "matrix st" r "matrix st ! r @ [point]"] by auto
    then show ?thesis
    proof
      assume "row' = matrix st ! r @ [point]"
      with q have "q \<in> set (matrix st ! r) \<or> q = point" by auto
      moreover have "matrix st ! r \<in> set (matrix st)" using True by (rule nth_mem)
      ultimately show ?thesis using inv unfolding rows_known_def by blast
    next
      assume "row' \<in> set (matrix st)"
      with q inv show ?thesis unfolding rows_known_def by blast
    qed
  qed
  then show ?thesis unfolding rows_known_def r' by (simp add: fun_upd_def) blast
qed

lemma place_dag:
  assumes dag: "jobDag job = Some dag" and inv: "rows_known st"
  shows "\<exists>st'. place job st point = Inr st' \<and> rows_known st'"
proof -
  consider (none) "findPrevious job (matrix st) point = Inr None"
    | (some) row p where "row \<in> set (matrix st)" "p \<in> set row"
        "findPrevious job (matrix st) point = Inr (Some p)"
    using findPrevious_dag[OF dag, of "matrix st" point] by blast
  then show ?thesis
  proof cases
    case none
    then show ?thesis
      by (auto simp: place_def intro!: rows_known_new_row[OF inv])
  next
    case some
    show ?thesis
    proof (cases "nexts st (pid p) = []")
      case False
      with some(3) show ?thesis
        by (auto simp: place_def intro!: rows_known_new_row[OF inv])
    next
      case True
      from some inv obtain r where r: "rows st (pid p) = Some r"
        unfolding rows_known_def by blast
      with some(3) True show ?thesis
        by (auto simp: place_def intro!: rows_known_push[OF inv])
    qed
  qed
qed

lemma place_all_dag:
  assumes "jobDag job = Some dag"
  shows "rows_known st \<Longrightarrow> \<exists>st'. place_all job st ps = Inr st'"
proof (induction ps arbitrary: st)
  case Nil
  show ?case by simp
next
  case (Cons point ps)
  from place_dag[OF assms Cons.prems, of point] obtain st1
    where "place job st point = Inr st1" "rows_known st1" by blast
  with Cons.IH[of st1] show ?case by simp
qed

lemma build_matrix_dag:
  assumes "jobDag job = Some dag"
  shows "\<exists>m. build_matrix job = Inr m"
proof -
  have "rows_known empty_layout" by (simp add: rows_known_def empty_layout_def)
  from place_all_dag[OF assms this, of "points_of job"] show ?thesis
    by (auto simp: build_matrix_def)
qed

lemma init_dag:
  assumes "jobDag job = Some dag"
  shows "\<exists>m. build_matrix job = Inr m \<and>
    init job = Inr (map DagNode (node_items job m) @ map DagEdge (edge_items (edges_or_empty dag) 0))"
  using build_matrix_dag[OF assms] by (auto simp: init_def edgeMap_dag[OF assms])

section \<open>Scene construction\<close>

lemma nodes_of_items [simp]: "nodes_of (map DagNode ns @ map DagEdge es) = ns"
proof (induction ns)
  case Nil
  show ?case by (induction es) simp_all
qed simp

lemma edges_of_items [simp]: "edges_of (map DagNode ns @ map DagEdge es) = es"
proof (induction ns)
  case Nil
  show ?case by (induction es) simp_all
qed simp

lemma length_pipeline_items [simp]: "length (pipeline_items key es z) = length es"
  by (induction es arbitrary: z) simp_all

lemma zIndex_pipeline_items: "map zIndex (pipeline_items key es z) = [z..<z + length es]"
  by (induction es arbitrary: z) (simp_all add: edge_of_def upt_rec)

lemma zIndex_edge_items: "map zIndex (edge_items m z) = [z..<z + length (all_edges m)]"
proof (induction m arbitrary: z)
  case Nil
  show ?case by (simp add: all_edges_def)
next
  case (Cons p m)
  obtain key es where p: "p = (key, es)" by (cases p)
  have "[z..<z + length es] @ [z + length es..<z + length es + length (all_edges m)]
        = [z..<z + (length es + length (all_edges m))]"
    by (metis add.assoc le_add1 upt_add_eq_append)
  with Cons[of "z + length es"] show ?case
    by (simp add: p zIndex_pipeline_items all_edges_def)
qed

lemma length_edge_items: "length (edge_items m z) = length (all_edges m)"
  using arg_cong[OF zIndex_edge_items[of m z], of length] by simp

lemma pipeline_items_map:
  "pipeline_items key es z = map (\<lambda>(i, e). edge_of key e i) (enumerate z es)"
  by (induction es arbitrary: z) simp_all

lemma target_port_pipeline_items:
  "map (\<lambda>d. (port (edge_source d), port (edge_target d))) (pipeline_items key es z) =
   map (\<lambda>e. (''node-'' @ inputVertexId e @ ''-right'', ''node-'' @ targetVertexId e @ ''-left'')) es"
  by (induction es arbitrary: z) (simp_all add: edge_of_def)

lemma ports_edge_items:
  "map (\<lambda>d. (port (edge_source d), port (edge_target d))) (edge_items m z) =
   map (\<lambda>e. (''node-'' @ inputVertexId e @ ''-right'', ''node-'' @ targetVertexId e @ ''-left''))
     (all_edges m)"
  by (induction m arbitrary: z) (auto simp: all_edges_def target_port_pipeline_items)

lemma edge_id_pipeline_items:
  "map edge_id (pipeline_items key es z) = replicate (length es) (''edge-'' @ key)"
  by (induction es arbitrary: z) (simp_all add: edge_of_def)

lemma edge_id_edge_items:
  "map edge_id (edge_items m z) =
   concat (map (\<lambda>(key, es). replicate (length es) (''edge-'' @ key)) m)"
  by (induction m arbitrary: z) (auto simp: edge_id_pipeline_items)

lemma length_row_nodes [simp]: "length (row_nodes job r row) = length row"
  by (simp add: row_nodes_def)

lemma row_nodes_nth:
  "c < length row \<Longrightarrow> row_nodes job r row ! c = node_of job r row c (row ! c)"
  by (simp add: row_nodes_def nth_enumerate_eq)

lemma node_rows_nth:
  assumes "r < length m" "c < length (m ! r)"
  shows "concat (map (\<lambda>(rowNumber, row). row_nodes job rowNumber row) (enumerate k m))
           ! (sum_list (map length (take r m)) + c)
         = node_of job (k + r) (m ! r) c (m ! r ! c)"
  using assms
proof (induction m arbitrary: k r)
  case Nil
  then show ?case by simp
next
  case (Cons row m)
  show ?case
  proof (cases r)
    case 0
    with Cons.prems show ?thesis by (simp add: nth_append row_nodes_nth)
  next
    case (Suc r')
    with Cons.prems Cons.IH[of r' "Suc k"] show ?thesis by (simp add: nth_append)
  qed
qed

lemma node_items_nth:
  assumes "r < length m" "c < length (m ! r)"
  shows "node_items job m ! (sum_list (map length (take r m)) + c)
         = node_of job r (m ! r) c (m ! r ! c)"
  using node_rows_nth[OF assms, of job 0] by (simp add: node_items_def)

lemma length_node_items: "length (node_items job m) = sum_list (map length m)"
proof -
  have "length (concat (map (\<lambda>(rowNumber, row). row_nodes job rowNumber row) (enumerate k m)))
        = sum_list (map length m)" for k
    by (induction m arbitrary: k) simp_all
  then show ?thesis by (simp add: node_items_def)
qed

lemma node_of_fields:
  "node_id (node_of job r row c item) = ''node-'' @ String (vertexId (vertex item))"
  "x_pos (node_of job r row c item) = c * 540"
  "y_pos (node_of job r row c item) = r * 140"
  "ports (node_of job r row c item) =
     (if c \<noteq> 0
      then [\<lparr>port_id = ''node-'' @ String (vertexId (vertex item)) @ ''-left'', group = ''left''\<rparr>]
      else []) @
     (if Suc c \<noteq> length row
      then [\<lparr>port_id = ''node-'' @ String (vertexId (vertex item)) @ ''-right'', group = ''right''\<rparr>]
      else [])"
  by (auto simp: node_of_def Let_def offsetX_def offsetY_def nodeWidth_def)

lemma fan_nodes:
  "node_items job [[pa, pb], [pc]] =
     [node_of job 0 [pa, pb] 0 pa, node_of job 0 [pa, pb] 1 pb, node_of job 1 [pc] 0 pc]"
  by (simp add: node_items_def row_nodes_def)

lemma left_not_right: "xs @ ''-right'' \<noteq> ys @ ''-left''"
proof
  assume "xs @ ''-right'' = ys @ ''-left''"
  then have "rev (xs @ ''-right'') = rev (ys @ ''-left'')" by (rule arg_cong)
  then show False by simp
qed

lemma empty_points:
  "jobDag job = Some dag \<Longrightarrow> vertexInfoMap dag = None \<or> vertexInfoMap dag = Some [] \<Longrightarrow> points_of job = []"
  by (auto simp: points_of_def)

text \<open>
  C4. Derived computations on a job with absent fields. On the job with every field
  absent, \<^verbatim>\<open>init\<close> lays out no point and then throws when it reads \<^verbatim>\<open>pipelineEdges\<close>
  of the absent \<^verbatim>\<open>jobDag\<close>, instead of building the empty scene. On a job whose
  metrics object lacks the metric key, the received-bytes cell of a source row of the
  table throws when it reads the table path of the absent entry.
\<close>

theorem init_throws_on_empty_job:
  "init empty_job = Inl TypeError \<and>
   vertex_A \<in> set (tableData keyless_job) \<and>
   sourceCell keyless_job vertex_A TableSourceReceivedBytes = Inl TypeError"
  by (simp add: init_def empty_job_def build_matrix_def points_of_def empty_layout_def edgeMap_def
      sourceCell_def keyless_job_def vertex_A_def metric_at_def tableData_def chain_dag_def)

text \<open>
  An empty vertex list does not make the scene empty: the job whose vertex list is empty
  and whose only pipeline has one edge gets one edge descriptor.
\<close>

theorem empty_vertex_list_counterexample:
  "vertexInfoMap orphan_dag = Some [] \<and>
   init orphan_job =
     Inr [DagEdge \<lparr>edge_id = ''edge-1'',
                   edge_source = \<lparr>cell = ''node-1'', port = ''node-1-right''\<rparr>,
                   edge_target = \<lparr>cell = ''node-2'', port = ''node-2-left''\<rparr>,
                   zIndex = 0\<rparr>]"
  by (simp add: orphan_job_def orphan_dag_def init_def build_matrix_def points_of_def
      empty_layout_def edgeMap_def node_items_def edge_of_def edge_1_2_def)

text \<open>
  C5, amended. For every job whose DAG snapshot is there and whose vertex list is empty or
  absent, \<^verbatim>\<open>init\<close> produces no node descriptor and one edge descriptor for each edge of
  the pipeline-edges mapping; the scene is empty exactly when the mapping is absent or
  holds no edge.
\<close>

theorem empty_vertex_list_scene:
  "jobDag job = Some dag \<Longrightarrow> vertexInfoMap dag = None \<or> vertexInfoMap dag = Some [] \<Longrightarrow>
   \<exists>items. init job = Inr items \<and> nodes_of items = [] \<and>
     edges_of items = edge_items (edges_or_empty dag) 0 \<and>
     length (edges_of items) = length (all_edges (edges_or_empty dag)) \<and>
     (items = [] \<longleftrightarrow> all_edges (edges_or_empty dag) = [])"
proof -
  assume dag: "jobDag job = Some dag"
    and vs: "vertexInfoMap dag = None \<or> vertexInfoMap dag = Some []"
  have "build_matrix job = Inr []"
    by (simp add: build_matrix_def empty_points[OF dag vs] empty_layout_def)
  then have "init job = Inr (map DagEdge (edge_items (edges_or_empty dag) 0))"
    by (simp add: init_def edgeMap_dag[OF dag] node_items_def)
  moreover have "nodes_of (map DagNode [] @ map DagEdge es) = []"
    and "edges_of (map DagNode [] @ map DagEdge es) = es" for es
    by (simp_all only: nodes_of_items edges_of_items)
  moreover have "edge_items (edges_or_empty dag) 0 = [] \<longleftrightarrow> all_edges (edges_or_empty dag) = []"
    using length_edge_items[of "edges_or_empty dag" 0] by (metis length_0_conv)
  ultimately show ?thesis by (simp add: length_edge_items)
qed

theorem empty_vertex_list_scene_witness:
  "vertexInfoMap listless_dag = None \<and>
   (\<exists>items. init listless_job = Inr items \<and> nodes_of items = [] \<and> length (edges_of items) = 2)"
proof -
  have "jobDag listless_job = Some listless_dag" and v: "vertexInfoMap listless_dag = None"
    by (simp_all add: listless_job_def listless_dag_def)
  then obtain items where "init listless_job = Inr items" "nodes_of items = []"
    "length (edges_of items) = length (all_edges (edges_or_empty listless_dag))"
    using empty_vertex_list_scene [of listless_job listless_dag] by blast
  moreover have "length (all_edges (edges_or_empty listless_dag)) = 2"
    by (simp add: listless_dag_def edges_or_empty_def all_edges_def)
  ultimately show ?thesis using v by (intro conjI exI[of _ items]) simp_all
qed

text \<open>
  C6. Identifiers and draw order of the edge descriptors. The identifier of an edge is
  made from the pipeline key alone: for the chain, whose one pipeline \<^verbatim>\<open>1\<close> has the two
  edges \<open>A \<rightarrow> B\<close> and \<open>B \<rightarrow> C\<close>, both edge descriptors get the identifier
  \<^verbatim>\<open>edge-1\<close>, so distinct edges do not get distinct identifiers. Their draw-order
  indices are 0 and 1.
\<close>

theorem edge_ids_collide:
  "\<exists>items. init chain_job = Inr items \<and>
     map edge_id (edges_of items) = [''edge-1'', ''edge-1''] \<and>
     map zIndex (edges_of items) = [0, 1]"
proof -
  have "jobDag chain_job = Some chain_dag" by (simp add: chain_job_def)
  from init_dag[OF this] obtain m where
    "init chain_job =
       Inr (map DagNode (node_items chain_job m) @ map DagEdge (edge_items (edges_or_empty chain_dag) 0))"
    by blast
  moreover have "map edge_id (edge_items (edges_or_empty chain_dag) 0) = [''edge-1'', ''edge-1'']"
    and "map zIndex (edge_items (edges_or_empty chain_dag) 0) = [0, 1]"
    by (simp_all add: edges_or_empty_def chain_dag_def edge_of_def)
  ultimately show ?thesis by (intro exI[of _ "map DagNode (node_items chain_job m) @
      map DagEdge (edge_items (edges_or_empty chain_dag) 0)"]) (simp only: edges_of_items simp_thms)
qed

text \<open>
  C7. In any grid, the node made for column \<open>c\<close> of row \<open>r\<close> has the position
  \<open>x = c \<times> 540\<close> and \<open>y = r \<times> 140\<close>, a left port exactly when \<open>c\<close> is not 0 and a right
  port exactly when \<open>c\<close> is not the last column of its row, and no other port. The node
  descriptors of \<^verbatim>\<open>init\<close> are those of the grid it has built.
\<close>

theorem node_ports_and_position:
  "(r < length m \<and> c < length (m ! r) \<longrightarrow>
     (let n = node_items job m ! (sum_list (map length (take r m)) + c);
          ident = ''node-'' @ String (vertexId (vertex (m ! r ! c)))
      in node_id n = ident \<and> x_pos n = c * 540 \<and> y_pos n = r * 140 \<and>
         ports n =
           (if c \<noteq> 0 then [\<lparr>port_id = ident @ ''-left'', group = ''left''\<rparr>] else []) @
           (if Suc c \<noteq> length (m ! r) then [\<lparr>port_id = ident @ ''-right'', group = ''right''\<rparr>]
            else []) \<and>
         ((\<exists>p \<in> set (ports n). group p = ''left'') \<longleftrightarrow> c \<noteq> 0) \<and>
         ((\<exists>p \<in> set (ports n). group p = ''right'') \<longleftrightarrow> Suc c \<noteq> length (m ! r)))) \<and>
   (jobDag job = Some dag \<longrightarrow>
     (\<exists>g items. build_matrix job = Inr g \<and> init job = Inr items \<and>
        nodes_of items = node_items job g))"
proof (intro conjI impI)
  assume "r < length m \<and> c < length (m ! r)"
  then have "node_items job m ! (sum_list (map length (take r m)) + c)
      = node_of job r (m ! r) c (m ! r ! c)"
    by (intro node_items_nth) simp_all
  then show "let n = node_items job m ! (sum_list (map length (take r m)) + c);
          ident = ''node-'' @ String (vertexId (vertex (m ! r ! c)))
      in node_id n = ident \<and> x_pos n = c * 540 \<and> y_pos n = r * 140 \<and>
         ports n =
           (if c \<noteq> 0 then [\<lparr>port_id = ident @ ''-left'', group = ''left''\<rparr>] else []) @
           (if Suc c \<noteq> length (m ! r) then [\<lparr>port_id = ident @ ''-right'', group = ''right''\<rparr>]
            else []) \<and>
         ((\<exists>p \<in> set (ports n). group p = ''left'') \<longleftrightarrow> c \<noteq> 0) \<and>
         ((\<exists>p \<in> set (ports n). group p = ''right'') \<longleftrightarrow> Suc c \<noteq> length (m ! r))"
    by (simp add: Let_def node_of_fields)
next
  assume "jobDag job = Some dag"
  from init_dag[OF this] obtain g where
    "build_matrix job = Inr g"
    "init job = Inr (map DagNode (node_items job g) @ map DagEdge (edge_items (edges_or_empty dag) 0))"
    by blast
  then show "\<exists>g items. build_matrix job = Inr g \<and> init job = Inr items \<and>
        nodes_of items = node_items job g"
    by (intro exI[of _ g] exI[of _ "map DagNode (node_items job g) @
        map DagEdge (edge_items (edges_or_empty dag) 0)"]) (simp only: nodes_of_items simp_thms)
qed

theorem node_ports_and_position_witness:
  "(let n = node_items fan_job fan_grid ! 1
    in node_id n = ''node-2'' \<and> x_pos n = 540 \<and> y_pos n = 0 \<and>
       ports n = [\<lparr>port_id = ''node-2-left'', group = ''left''\<rparr>]) \<and>
   (let n = node_items fan_job fan_grid ! 2
    in node_id n = ''node-3'' \<and> x_pos n = 0 \<and> y_pos n = 140 \<and> ports n = []) \<and>
   (\<exists>g items. build_matrix fan_job = Inr g \<and> init fan_job = Inr items \<and>
      nodes_of items = node_items fan_job g)"
proof -
  have b: "0 < length fan_grid \<and> 1 < length (fan_grid ! 0)"
    and c: "1 < length fan_grid \<and> 0 < length (fan_grid ! 1)"
    and dag: "jobDag fan_job = Some fan_dag"
    by (simp_all add: fan_grid_def fan_job_def)
  have ib: "sum_list (map length (take 0 fan_grid)) + 1 = 1"
    and ic: "sum_list (map length (take 1 fan_grid)) + 0 = 2"
    and sb: "String (vertexId (vertex (fan_grid ! 0 ! 1))) = ''2''"
    and sc: "String (vertexId (vertex (fan_grid ! 1 ! 0))) = ''3''"
    and lb: "length (fan_grid ! 0) = 2" and lc: "length (fan_grid ! 1) = 1"
    by (simp_all add: fan_grid_def vertex_B_def vertex_C_def String_def string_of_nat.simps)
  from node_ports_and_position [of 0 fan_grid 1 fan_job fan_dag] b
  have "let n = node_items fan_job fan_grid ! 1
    in node_id n = ''node-2'' \<and> x_pos n = 540 \<and> y_pos n = 0 \<and>
       ports n = [\<lparr>port_id = ''node-2-left'', group = ''left''\<rparr>]"
    unfolding ib sb lb by (simp add: Let_def)
  moreover from node_ports_and_position [of 1 fan_grid 0 fan_job fan_dag] c
  have "let n = node_items fan_job fan_grid ! 2
    in node_id n = ''node-3'' \<and> x_pos n = 0 \<and> y_pos n = 140 \<and> ports n = []"
    unfolding ic sc lc by (simp add: Let_def)
  moreover from node_ports_and_position [of 0 fan_grid 1 fan_job fan_dag] dag
  have "\<exists>g items. build_matrix fan_job = Inr g \<and> init fan_job = Inr items \<and>
      nodes_of items = node_items fan_job g"
    by blast
  ultimately show ?thesis by (intro conjI)
qed

text \<open>
  C10. Every edge descriptor names the source port \<^verbatim>\<open>node-<inputVertexId>-right\<close> and
  the target port \<^verbatim>\<open>node-<targetVertexId>-left\<close>, whatever ports the nodes have. For
  the fan-out \<open>a \<rightarrow> b\<close>, \<open>a \<rightarrow> c\<close> with distinct ids, the node of \<open>c\<close> has no port, an edge
  descriptor targets the left port of \<open>c\<close>, and no node has a port of that id.
\<close>

theorem edge_ports_unconditional:
  "(jobDag job = Some dag \<longrightarrow>
     (\<exists>items. init job = Inr items \<and>
        map (\<lambda>d. (port (edge_source d), port (edge_target d))) (edges_of items) =
        map (\<lambda>e. (''node-'' @ inputVertexId e @ ''-right'', ''node-'' @ targetVertexId e @ ''-left''))
          (all_edges (edges_or_empty dag)))) \<and>
   (jobDag job = Some dag \<and> vertexInfoMap dag = Some [a, b, c] \<and> pipelineEdges dag = Some m \<and>
    distinct [vertexId a, vertexId b, vertexId c] \<and>
    ends ` set (all_edges m) = {link a b, link a c} \<longrightarrow>
     (\<exists>items. init job = Inr items \<and>
        (\<exists>n \<in> set (nodes_of items). node_id n = ''node-'' @ String (vertexId c) \<and> ports n = []) \<and>
        (\<exists>d \<in> set (edges_of items).
           port (edge_target d) = ''node-'' @ String (vertexId c) @ ''-left'') \<and>
        (\<forall>n \<in> set (nodes_of items). \<forall>p \<in> set (ports n).
           port_id p \<noteq> ''node-'' @ String (vertexId c) @ ''-left'')))"
proof (intro conjI impI)
  assume dag: "jobDag job = Some dag"
  from init_dag[OF this] obtain g where
    "init job = Inr (map DagNode (node_items job g) @ map DagEdge (edge_items (edges_or_empty dag) 0))"
    by blast
  then show "\<exists>items. init job = Inr items \<and>
        map (\<lambda>d. (port (edge_source d), port (edge_target d))) (edges_of items) =
        map (\<lambda>e. (''node-'' @ inputVertexId e @ ''-right'', ''node-'' @ targetVertexId e @ ''-left''))
          (all_edges (edges_or_empty dag))"
    by (intro exI[of _ "map DagNode (node_items job g) @
        map DagEdge (edge_items (edges_or_empty dag) 0)"])
       (simp only: edges_of_items ports_edge_items simp_thms)
next
  assume h: "jobDag job = Some dag \<and> vertexInfoMap dag = Some [a, b, c] \<and>
    pipelineEdges dag = Some m \<and> distinct [vertexId a, vertexId b, vertexId c] \<and>
    ends ` set (all_edges m) = {link a b, link a c}"
  then have dag: "jobDag job = Some dag" and m: "pipelineEdges dag = Some m"
    and ids: "vertexId b \<noteq> vertexId c" by simp_all
  let ?g = "[[\<lparr>pid = 0, vertex = a\<rparr>, \<lparr>pid = 1, vertex = b\<rparr>], [\<lparr>pid = 2, vertex = c\<rparr>]]"
  let ?ns = "node_items job ?g"
  let ?es = "edge_items m 0"
  let ?target = "''node-'' @ String (vertexId c) @ ''-left''"
  from h have g: "build_matrix job = Inr ?g"
    using fan_matrix_general [of job dag a b c m] by blast
  from m have em: "edges_or_empty dag = m" by (simp add: edges_or_empty_def)
  from g have init: "init job = Inr (map DagNode ?ns @ map DagEdge ?es)"
    by (simp add: init_def edgeMap_dag[OF dag] em)
  have node: "\<exists>n \<in> set ?ns. node_id n = ''node-'' @ String (vertexId c) \<and> ports n = []"
    by (simp add: fan_nodes node_of_fields)
  have none: "\<forall>n \<in> set ?ns. \<forall>p \<in> set (ports n). port_id p \<noteq> ?target"
    using ids left_not_right[of "String (vertexId a)" "String (vertexId c)"]
    by (auto simp: fan_nodes node_of_fields dest: String_inj)
  from h have "link a c \<in> ends ` set (all_edges m)" by simp
  then obtain e where e: "e \<in> set (all_edges m)" "targetVertexId e = String (vertexId c)"
    by (auto simp: link_def ends_def)
  then have "(''node-'' @ inputVertexId e @ ''-right'', ?target)
      \<in> set (map (\<lambda>d. (port (edge_source d), port (edge_target d))) ?es)"
    unfolding ports_edge_items by (auto simp: image_iff intro!: bexI[of _ e])
  then have edge: "\<exists>d \<in> set ?es. port (edge_target d) = ?target" by auto
  show "\<exists>items. init job = Inr items \<and>
        (\<exists>n \<in> set (nodes_of items). node_id n = ''node-'' @ String (vertexId c) \<and> ports n = []) \<and>
        (\<exists>d \<in> set (edges_of items). port (edge_target d) = ?target) \<and>
        (\<forall>n \<in> set (nodes_of items). \<forall>p \<in> set (ports n). port_id p \<noteq> ?target)"
    using init node edge none
    by (intro exI[of _ "map DagNode ?ns @ map DagEdge ?es"])
       (simp only: nodes_of_items edges_of_items simp_thms)
qed

theorem edge_ports_unconditional_witness:
  "\<exists>items. init fan_job = Inr items \<and>
     map (\<lambda>d. port (edge_target d)) (edges_of items) = [''node-2-left'', ''node-3-left''] \<and>
     (\<exists>n \<in> set (nodes_of items). node_id n = ''node-3'' \<and> ports n = []) \<and>
     (\<forall>n \<in> set (nodes_of items). \<forall>p \<in> set (ports n). port_id p \<noteq> ''node-3-left'')"
proof -
  have s: "String (vertexId vertex_C) = ''3''"
    by (simp add: vertex_C_def String_def string_of_nat.simps)
  have "jobDag fan_job = Some fan_dag \<and> vertexInfoMap fan_dag = Some [vertex_A, vertex_B, vertex_C] \<and>
    pipelineEdges fan_dag = Some [(''1'', [edge_1_2, edge_1_3])] \<and>
    distinct [vertexId vertex_A, vertexId vertex_B, vertexId vertex_C] \<and>
    ends ` set (all_edges [(''1'', [edge_1_2, edge_1_3])]) = {link vertex_A vertex_B, link vertex_A vertex_C}"
    by (simp add: fan_job_def fan_dag_def vertex_A_def vertex_B_def vertex_C_def
      edge_1_2_def edge_1_3_def all_edges_def ends_def link_def String_def string_of_nat.simps)
  with edge_ports_unconditional [of fan_job fan_dag vertex_A vertex_B vertex_C
      "[(''1'', [edge_1_2, edge_1_3])]"]
  have "\<exists>items. init fan_job = Inr items \<and>
        map (\<lambda>d. (port (edge_source d), port (edge_target d))) (edges_of items) =
        map (\<lambda>e. (''node-'' @ inputVertexId e @ ''-right'', ''node-'' @ targetVertexId e @ ''-left''))
          (all_edges (edges_or_empty fan_dag))"
    and "\<exists>items. init fan_job = Inr items \<and>
        (\<exists>n \<in> set (nodes_of items).
           node_id n = ''node-'' @ String (vertexId vertex_C) \<and> ports n = []) \<and>
        (\<exists>d \<in> set (edges_of items).
           port (edge_target d) = ''node-'' @ String (vertexId vertex_C) @ ''-left'') \<and>
        (\<forall>n \<in> set (nodes_of items). \<forall>p \<in> set (ports n).
           port_id p \<noteq> ''node-'' @ String (vertexId vertex_C) @ ''-left'')"
    by blast+
  then obtain items items' where init: "init fan_job = Inr items"
    and ports: "map (\<lambda>d. (port (edge_source d), port (edge_target d))) (edges_of items) =
        map (\<lambda>e. (''node-'' @ inputVertexId e @ ''-right'', ''node-'' @ targetVertexId e @ ''-left''))
          (all_edges (edges_or_empty fan_dag))"
    and init': "init fan_job = Inr items'"
    and node: "\<exists>n \<in> set (nodes_of items').
           node_id n = ''node-'' @ String (vertexId vertex_C) \<and> ports n = []"
    and none: "\<forall>n \<in> set (nodes_of items'). \<forall>p \<in> set (ports n).
           port_id p \<noteq> ''node-'' @ String (vertexId vertex_C) @ ''-left''"
    by blast
  from init init' have same: "items' = items" by simp
  from node have node': "\<exists>n \<in> set (nodes_of items). node_id n = ''node-3'' \<and> ports n = []"
    unfolding s same by simp
  from none have none': "\<forall>n \<in> set (nodes_of items). \<forall>p \<in> set (ports n).
      port_id p \<noteq> ''node-3-left''"
    unfolding s same by simp
  from arg_cong[OF ports, of "map snd"]
  have "map (\<lambda>d. port (edge_target d)) (edges_of items) = [''node-2-left'', ''node-3-left'']"
    by (simp add: comp_def fan_dag_def edges_or_empty_def all_edges_def edge_1_2_def edge_1_3_def)
  with init node' none' show ?thesis by (intro exI[of _ items] conjI)
qed

section \<open>Metrics table\<close>

text \<open>
  C8. For a source vertex with the table paths \<open>a\<close> and \<open>b\<close> and metrics that map
  \<^verbatim>\<open>TableSourceReceivedBytes\<close> to \<open>a: 10\<close>, \<open>b: 20\<close>, the received-bytes cell is 30.
  Every sink cell of a source vertex is 0, and every source cell of a sink vertex is 0.
\<close>

theorem metrics_cells:
  "(vtype v = ''source'' \<and> tablePaths v = [''a'', ''b''] \<and> metrics job = Some mm \<and>
    mm (Source TableSourceReceivedBytes) = Some t \<and> t ''a'' = Some (Num 10) \<and> t ''b'' = Some (Num 20)
    \<longrightarrow> sourceCell job v TableSourceReceivedBytes = Inr (Num 30)) \<and>
   (vtype v = ''source'' \<longrightarrow> sinkCell job v k = Inr (Num 0)) \<and>
   (vtype v = ''sink'' \<longrightarrow> sourceCell job v k' = Inr (Num 0))"
  by (auto simp: sourceCell_def sinkCell_def metric_at_def)

theorem metrics_cells_witness:
  "sourceCell metrics_job vertex_A TableSourceReceivedBytes = Inr (Num 30) \<and>
   sinkCell metrics_job vertex_A TableSinkWriteBytes = Inr (Num 0) \<and>
   sourceCell metrics_job vertex_C TableSourceReceivedBytes = Inr (Num 0)"
  using metrics_cells [of vertex_A metrics_job
      "[Source TableSourceReceivedBytes \<mapsto> [''a'' \<mapsto> Num 10, ''b'' \<mapsto> Num 20]]"
      "[''a'' \<mapsto> Num 10, ''b'' \<mapsto> Num 20]" TableSinkWriteBytes]
    metrics_cells [of vertex_C metrics_job _ _ _ TableSourceReceivedBytes]
  by (simp add: metrics_job_def vertex_A_def vertex_C_def)

section \<open>Status animation\<close>















end
